theory Spec2Isabelle
  imports Main "HOL-Library.Log_Nat"
begin

section \<open>Python values used by economist.py\<close>

text \<open>
  Exceptions are values. Only subclasses of Python's \<open>Exception\<close> occur: the ones the
  program's own statements raise, and the ones its libraries (sqlite3, requests, PIL,
  BeautifulSoup, newspaper, ebooklib) raise.
\<close>

datatype error =
    IntegrityError
  | OperationalError
  | ProgrammingError
  | RequestException
  | UnidentifiedImageError
  | ArticleException
  | AttributeError
  | IndexError
  | ZeroDivisionError
  | ValueError
  | TypeError
  | OSError
  | FileNotFoundError

subsection \<open>Floats\<close>

text \<open>
  A Python float is an IEEE 754 double. Its value is kept as a rational; every float
  operation is the exact operation followed by \<open>fl\<close>, rounding to the nearest double,
  ties to the even mantissa. \<open>ilog2 q\<close> is the binary exponent of a positive \<open>q\<close>.
  Overflow and subnormal numbers are left out: every float of the program is a quotient
  or product of list lengths and image dimensions, far inside the normal range.
\<close>

definition pow2 :: "int \<Rightarrow> rat" where
  "pow2 k = (if 0 \<le> k then 2 ^ nat k else 1 / 2 ^ nat (- k))"

definition round_half_even :: "rat \<Rightarrow> int" where
  "round_half_even q =
     (let f = \<lfloor>q\<rfloor>; d = q - of_int f
      in if d < 1 / 2 then f else if 1 / 2 < d then f + 1
         else if even f then f else f + 1)"

definition ilog2 :: "rat \<Rightarrow> int" where
  "ilog2 q = (case quotient_of q of (a, b) \<Rightarrow>
     (let k = bitlen a - bitlen b in if pow2 k \<le> q then k else k - 1))"

definition fl :: "rat \<Rightarrow> rat" where
  "fl q = (if q = 0 then 0
           else (let e = ilog2 \<bar>q\<bar> - 52
                 in of_int (round_half_even (q / pow2 e)) * pow2 e))"

text \<open>\<open>a / b\<close> on two ints: the correctly rounded quotient.\<close>

definition int_truediv :: "int \<Rightarrow> int \<Rightarrow> error + rat" where
  "int_truediv a b =
     (if b = 0 then Inl ZeroDivisionError else Inr (fl (of_int a / of_int b)))"

text \<open>\<open>i * x\<close> and \<open>h / x\<close> with an int on the left: the int is converted first.\<close>

definition int_mul_float :: "int \<Rightarrow> rat \<Rightarrow> rat" where
  "int_mul_float i x = fl (fl (of_int i) * x)"

definition int_div_float :: "int \<Rightarrow> rat \<Rightarrow> error + rat" where
  "int_div_float h x =
     (if x = 0 then Inl ZeroDivisionError else Inr (fl (fl (of_int h) / x)))"

text \<open>\<open>round(x)\<close> on a float rounds half to even; \<open>int(x)\<close> truncates towards zero.\<close>

definition py_round :: "rat \<Rightarrow> int" where
  "py_round x = round_half_even x"

definition py_int :: "rat \<Rightarrow> int" where
  "py_int x = (if 0 \<le> x then \<lfloor>x\<rfloor> else \<lceil>x\<rceil>)"

subsection \<open>Strings and lists\<close>

text \<open>\<open>s.split(c)\<close> for a one-character separator: never the empty list.\<close>

fun split_on :: "char \<Rightarrow> string \<Rightarrow> string list" where
  "split_on c [] = [[]]"
| "split_on c (x # xs) =
     (if x = c then [] # split_on c xs
      else (case split_on c xs of
              p # ps \<Rightarrow> (x # p) # ps
            | [] \<Rightarrow> [[x]]))"

text \<open>\<open>sep.join(xs)\<close>.\<close>

fun join :: "string \<Rightarrow> string list \<Rightarrow> string" where
  "join sep [] = []"
| "join sep [x] = x"
| "join sep (x # y # ys) = x @ sep @ join sep (y # ys)"

text \<open>
  \<open>xs.insert(pos, v)\<close>: a negative position counts from the end, and a position outside
  the list is clamped to its ends; \<open>insert\<close> never raises.
\<close>

definition list_insert :: "'a list \<Rightarrow> int \<Rightarrow> 'a \<Rightarrow> 'a list" where
  "list_insert xs pos v =
     (let n = int (length xs);
          p = (if pos < 0 then max 0 (pos + n) else min pos n)
      in take (nat p) xs @ v # drop (nat p) xs)"

text \<open>\<open>os.path.basename\<close>: what follows the last slash.\<close>

definition basename :: "string \<Rightarrow> string" where
  "basename p = rev (takeWhile (\<lambda>c. c \<noteq> CHR ''/'') (rev p))"

text \<open>\<open>s[-10:]\<close>: the last ten characters, the whole string when it is shorter.\<close>

definition last10 :: "string \<Rightarrow> string" where
  "last10 s = drop (length s - 10) s"

section \<open>The outside world\<close>

text \<open>
  An HTTP response as \<open>requests\<close> gives it: the final URL after redirects, the decoded
  text and the raw bytes.
\<close>

record response =
  res_url :: string
  res_text :: string
  res_content :: string

text \<open>A decoded PIL image: its size (width, height) and its pixel data.\<close>

record image =
  img_size :: "int \<times> int"
  img_data :: string

text \<open>
  What newspaper's parse leaves in its article object: \<open>has_top_image()\<close>,
  \<open>top_image\<close>, \<open>images\<close> in iteration order, and \<open>text\<close>.
\<close>

record parsed =
  has_top_image :: bool
  top_image :: string
  parsed_images :: "string list"
  parsed_text :: string

text \<open>
  The libraries are parameters of the model, one field each:
  \<^item> \<open>http\<close>: \<open>requests.get(url, timeout=30)\<close> followed by \<open>raise_for_status()\<close>, as a
    function of the requests made so far and of the URL;
  \<^item> \<open>md5_hexdigest\<close>: \<open>hashlib.md5(s.encode('utf-8')).hexdigest()\<close>;
  \<^item> \<open>image_open\<close>: \<open>Image.open(io.BytesIO(data))\<close>;
  \<^item> \<open>lanczos\<close>: the pixel data \<open>image.resize(size, Image.LANCZOS)\<close> computes;
  \<^item> \<open>image_save\<close>: the exception \<open>image.save(filename)\<close> raises, if any;
  \<^item> \<open>extract_article\<close>: lines 81 to 86 of the source, BeautifulSoup's search for the
    \<open>blog-post\<close> article element and newspaper's download and parse, from the page
    HTML and the URL;
  \<^item> \<open>parse_issue\<close>: what BeautifulSoup finds in the index page (lines 153 to 167):
    the cover's \<open>src\<close> if there is a cover, and for every list item its name and, for
    every link, the texts of its spans and its \<open>href\<close> if it has one.
\<close>

record world =
  http :: "string list \<Rightarrow> string \<Rightarrow> error + response"
  md5_hexdigest :: "string \<Rightarrow> string"
  image_open :: "string \<Rightarrow> error + image"
  lanczos :: "image \<Rightarrow> int \<times> int \<Rightarrow> error + string"
  image_save :: "image \<Rightarrow> string \<Rightarrow> error option"
  extract_article :: "string \<Rightarrow> string \<Rightarrow> error + parsed"
  parse_issue ::
    "string \<Rightarrow> error + (string option \<times> (string \<times> (string list \<times> string option) list) list)"

text \<open>
  The mutable state the program works on:
  \<^item> \<open>rows\<close>: table \<open>articles\<close> of articles.db, \<open>url\<close> the primary key, \<open>html\<close> a
    nullable text;
  \<^item> \<open>sql_faults\<close>: the storage errors to come, one entry for each call of
    \<open>conn.cursor()\<close> and of \<open>cursor.execute\<close> still to be made (\<open>None\<close>, or no entry
    left: the call succeeds). On a closed connection \<open>conn.cursor()\<close> raises a
    \<open>ProgrammingError\<close>;
  \<^item> \<open>files\<close>: the image files on disk, by path;
  \<^item> \<open>requests\<close>: the URLs requested so far, oldest first;
  \<^item> \<open>logs\<close>: the records written by \<open>logging\<close>, oldest first.
\<close>

record state =
  rows :: "string \<rightharpoonup> string option"
  sql_faults :: "error option list"
  files :: "string \<rightharpoonup> image"
  requests :: "string list"
  logs :: "string list"

definition logging :: "string \<Rightarrow> state \<Rightarrow> state" where
  "logging msg s = s\<lparr>logs := logs s @ [msg]\<rparr>"

section \<open>Database\<close>

text \<open>
  \<open>self.conn.cursor()\<close>: the call either hits the next storage error or gives a cursor.
\<close>

definition cursor :: "state \<Rightarrow> error option \<times> state" where
  "cursor s =
     (case sql_faults s of
        [] \<Rightarrow> (None, s)
      | f # fs \<Rightarrow> (f, s\<lparr>sql_faults := fs\<rparr>))"

text \<open>
  \<open>cursor.execute\<close>: the statement either hits the next storage error or runs. A commit
  that follows a statement that ran is taken to succeed, and so is \<open>cursor.close()\<close>,
  which raises only on a closed connection, where no cursor was obtained.
\<close>

definition execute :: "state \<Rightarrow> error option \<times> state" where
  "execute s =
     (case sql_faults s of
        [] \<Rightarrow> (None, s)
      | f # fs \<Rightarrow> (f, s\<lparr>sql_faults := fs\<rparr>))"

text \<open>
  \<open>Database.get\<close> (lines 35 to 50). The cursor is obtained at line 36, before the
  \<open>try\<close>: an exception there leaves the method. A row is a one-element tuple, hence
  truthy, and the method returns its only column, which may be NULL; with no row, or
  after an exception inside the \<open>try\<close>, it returns \<open>None\<close>.
\<close>

definition Database_get :: "state \<Rightarrow> string \<Rightarrow> (error + string option) \<times> state" where
  "Database_get s url =
     (case cursor s of
        (Some e, s0) \<Rightarrow> (Inl e, s0)
      | (None, s0) \<Rightarrow>
          (case execute s0 of
             (Some e, s1) \<Rightarrow> (Inr None, logging (''cannot get article: '' @ url) s1)
           | (None, s1) \<Rightarrow>
               (case rows s1 url of
                  Some html \<Rightarrow> (Inr html, s1)
                | None \<Rightarrow> (Inr None, s1))))"

text \<open>
  \<open>Database.set\<close> (lines 52 to 61): a plain INSERT inside \<open>try ... finally\<close>, with no
  \<open>except\<close>; the primary key rejects a URL that has a row.
\<close>

definition Database_set :: "state \<Rightarrow> string \<Rightarrow> string \<Rightarrow> (error + unit) \<times> state" where
  "Database_set s url html =
     (case cursor s of
        (Some e, s0) \<Rightarrow> (Inl e, s0)
      | (None, s0) \<Rightarrow>
          (case execute s0 of
             (Some e, s1) \<Rightarrow> (Inl e, s1)
           | (None, s1) \<Rightarrow>
               (case rows s1 url of
                  Some row \<Rightarrow> (Inl IntegrityError, s1)
                | None \<Rightarrow> (Inr (), s1\<lparr>rows := (rows s1)(url \<mapsto> Some html)\<rparr>))))"

section \<open>fetch and download_image\<close>

text \<open>\<open>fetch\<close> (lines 251 to 254).\<close>

definition fetch :: "world \<Rightarrow> state \<Rightarrow> string \<Rightarrow> (error + response) \<times> state" where
  "fetch w s url = (http w (requests s) url, s\<lparr>requests := requests s @ [url]\<rparr>)"

text \<open>\<open>image.resize(size, Image.LANCZOS)\<close>: a new image of the size asked for.\<close>

definition resize :: "world \<Rightarrow> image \<Rightarrow> int \<times> int \<Rightarrow> error + image" where
  "resize w img sz =
     (case lanczos w img sz of
        Inl e \<Rightarrow> Inl e
      | Inr d \<Rightarrow> Inr \<lparr>img_size = sz, img_data = d\<rparr>)"

text \<open>Lines 270 to 276: the image that is saved.\<close>

definition scale_down :: "world \<Rightarrow> image \<Rightarrow> int \<Rightarrow> error + image" where
  "scale_down w img max_width =
     (case img_size img of (wd, h) \<Rightarrow>
        (if wd > max_width then
           (case int_truediv wd max_width of
              Inl e \<Rightarrow> Inl e
            | Inr ratio \<Rightarrow>
                (case int_div_float h ratio of
                   Inl e \<Rightarrow> Inl e
                 | Inr q \<Rightarrow> resize w img (max_width, py_int q)))
         else Inr img))"

definition image_filename :: "world \<Rightarrow> string \<Rightarrow> string" where
  "image_filename w image_url =
     ''images/'' @ md5_hexdigest w image_url @ ''-'' @ basename image_url"

text \<open>\<open>download_image\<close> (lines 257 to 279).\<close>

definition download_image ::
  "world \<Rightarrow> state \<Rightarrow> string \<Rightarrow> int \<Rightarrow> (error + string) \<times> state" where
  "download_image w s image_url max_width =
     (let filename = image_filename w image_url
      in if files s filename \<noteq> None then (Inr filename, s)
         else
           (case fetch w s image_url of
              (Inl e, s1) \<Rightarrow> (Inl e, s1)
            | (Inr res, s1) \<Rightarrow>
                (case image_open w (res_content res) of
                   Inl e \<Rightarrow> (Inl e, s1)
                 | Inr img \<Rightarrow>
                     (case scale_down w img max_width of
                        Inl e \<Rightarrow> (Inl e, s1)
                      | Inr img' \<Rightarrow>
                          (case image_save w img' filename of
                             Some e \<Rightarrow> (Inl e, s1)
                           | None \<Rightarrow>
                               (Inr filename,
                                s1\<lparr>files := (files s1)(filename \<mapsto> img')\<rparr>))))))"

section \<open>Article\<close>

text \<open>
  An \<open>Article\<close> object (lines 65 to 70). \<open>html\<close> holds what \<open>Database.get\<close> returned,
  which may be \<open>None\<close>. The only constructor call of the program, in \<open>fetch_issue\<close>,
  passes a string as title.
\<close>

record article =
  url :: string
  title :: string
  html :: "string option"
  images :: "string list"
  content :: string

definition Article :: "string \<Rightarrow> string \<Rightarrow> article" where
  "Article u t = \<lparr>url = u, title = t, html = Some [], images = [], content = []\<rparr>"

text \<open>Python's truth value of \<open>self.html\<close>: \<open>None\<close> and the empty string are falsy.\<close>

definition truthy :: "string option \<Rightarrow> bool" where
  "truthy v = (case v of None \<Rightarrow> False | Some x \<Rightarrow> x \<noteq> [])"

text \<open>
  \<open>Article.download\<close> (lines 72 to 76). The object is updated in place, so the article
  and the state are returned also when an exception leaves the method.
\<close>

definition Article_download ::
  "world \<Rightarrow> article \<Rightarrow> state \<Rightarrow> (error + unit) \<times> article \<times> state" where
  "Article_download w a s =
     (case Database_get s (url a) of
        (Inl e, s1) \<Rightarrow> (Inl e, a, s1)
      | (Inr cached, s1) \<Rightarrow>
          (let a1 = a\<lparr>html := cached\<rparr>
           in if truthy cached then (Inr (), a1, s1)
              else
                (case fetch w s1 (url a) of
                   (Inl e, s2) \<Rightarrow> (Inl e, a1, s2)
                 | (Inr res, s2) \<Rightarrow>
                     (let a2 = a1\<lparr>html := Some (res_text res)\<rparr>
                      in case Database_set s2 (url a) (res_text res) of
                           (Inl e, s3) \<Rightarrow> (Inl e, a2, s3)
                         | (Inr u, s3) \<Rightarrow> (Inr (), a2, s3)))))"

definition img_tag :: \<open>string \<Rightarrow> string\<close> where
  \<open>img_tag filename = ''<center><img src="'' @ filename @ ''" /></center>''\<close>

text \<open>
  The loop of lines 103 to 108, \<open>i\<close> the index of the first image of the list: each
  image is downloaded and inserted before the next position is computed.
\<close>

fun space_out ::
  "world \<Rightarrow> rat \<Rightarrow> int \<Rightarrow> string list \<Rightarrow> article \<Rightarrow> string list \<Rightarrow> state
     \<Rightarrow> (error + string list) \<times> article \<times> state" where
  "space_out w rate i [] a paragraphs s = (Inr paragraphs, a, s)"
| "space_out w rate i (img # imgs) a paragraphs s =
     (let pos = py_round (int_mul_float i rate) + i
      in case download_image w s img 400 of
           (Inl e, s1) \<Rightarrow> (Inl e, a, s1)
         | (Inr filename, s1) \<Rightarrow>
             space_out w rate (i + 1) imgs
               (a\<lparr>images := images a @ [filename]\<rparr>)
               (list_insert paragraphs pos (img_tag filename)) s1)"

text \<open>Lines 91 to 96: the top image. The result is the content so far.\<close>

definition add_top_image ::
  "world \<Rightarrow> parsed \<Rightarrow> string \<Rightarrow> article \<Rightarrow> state \<Rightarrow> (error + string) \<times> article \<times> state" where
  "add_top_image w p c a s =
     (if has_top_image p then
        (case download_image w s (top_image p) 400 of
           (Inl e, s1) \<Rightarrow> (Inl e, a, s1)
         | (Inr filename, s1) \<Rightarrow>
             (Inr (c @ img_tag filename), a\<lparr>images := images a @ [filename]\<rparr>, s1))
      else (Inr c, a, s))"

text \<open>Lines 98 to 111: the other images are spaced out in the text.\<close>

definition add_paragraphs ::
  "world \<Rightarrow> parsed \<Rightarrow> string \<Rightarrow> article \<Rightarrow> state \<Rightarrow> (error + unit) \<times> article \<times> state" where
  "add_paragraphs w p c a s =
     (let imgs = filter (\<lambda>i. i \<noteq> top_image p) (parsed_images p);
          paragraphs = split_on (CHR 0x0A) (parsed_text p)
      in case int_truediv (int (length paragraphs)) (int (length imgs) + 1) of
           Inl e \<Rightarrow> (Inl e, a, s)
         | Inr rate \<Rightarrow>
             (case space_out w rate 1 imgs a paragraphs s of
                (Inl e, a1, s1) \<Rightarrow> (Inl e, a1, s1)
              | (Inr paragraphs', a1, s1) \<Rightarrow>
                  (Inr (), a1\<lparr>content := c @ join ''<br>'' paragraphs'\<rparr>, s1)))"

text \<open>
  \<open>Article.build\<close> (lines 78 to 111). \<open>BeautifulSoup(None, "lxml")\<close> raises a
  \<open>TypeError\<close>.
\<close>

definition Article_build ::
  "world \<Rightarrow> article \<Rightarrow> state \<Rightarrow> (error + unit) \<times> article \<times> state" where
  "Article_build w a s =
     (case Article_download w a s of
        (Inl e, a1, s1) \<Rightarrow> (Inl e, a1, s1)
      | (Inr u, a1, s1) \<Rightarrow>
          (case html a1 of
             None \<Rightarrow> (Inl TypeError, a1, s1)
           | Some h \<Rightarrow>
               (case extract_article w h (url a1) of
                  Inl e \<Rightarrow> (Inl e, a1, s1)
                | Inr p \<Rightarrow>
                    (case add_top_image w p (''<h1>'' @ title a1 @ ''</h1>'') a1 s1 of
                       (Inl e, a2, s2) \<Rightarrow> (Inl e, a2, s2)
                     | (Inr c, a2, s2) \<Rightarrow> add_paragraphs w p c a2 s2))))"

section \<open>Section\<close>

text \<open>A \<open>Section\<close> object (lines 115 to 117).\<close>

record issue_section =
  sec_title :: string
  articles :: "article list"

text \<open>The loop of \<open>Section.build\<close> (lines 120 to 124).\<close>

fun build_articles :: "world \<Rightarrow> article list \<Rightarrow> state \<Rightarrow> article list \<times> state" where
  "build_articles w [] s = ([], s)"
| "build_articles w (a # as) s =
     (case Article_build w a s of
        (Inl e, a', s1) \<Rightarrow>
          (case build_articles w as (logging ''cannot build article'' s1) of
             (as', s2) \<Rightarrow> (a' # as', s2))
      | (Inr u, a', s1) \<Rightarrow>
          (case build_articles w as s1 of
             (as', s2) \<Rightarrow> (a' # as', s2)))"

definition Section_build :: "world \<Rightarrow> issue_section \<Rightarrow> state \<Rightarrow> issue_section \<times> state" where
  "Section_build w sec s =
     (case build_articles w (articles sec) s of
        (as', s') \<Rightarrow> (sec\<lparr>articles := as'\<rparr>, s'))"

section \<open>Economist\<close>

text \<open>
  The fields of an \<open>Economist\<close> object that \<open>fetch_issue\<close> and \<open>build\<close> use (lines 137
  to 142). Its database connection is part of the state.
\<close>

record economist =
  issue_id :: string
  issue_title :: string
  cover_img :: "string option"
  sections :: "issue_section list"

definition base_url :: string where
  "base_url = ''http://www.economist.com''"

definition print_edition :: string where
  "print_edition = base_url @ ''/printedition/''"

definition author :: string where
  "author = ''The Economist''"

definition language :: string where
  "language = ''en''"

definition Economist :: economist where
  "Economist = \<lparr>issue_id = [], issue_title = [], cover_img = None, sections = []\<rparr>"

text \<open>
  \<open>absolute_url\<close> (lines 241 to 242), applied to \<open>a.get('href')\<close>, which is \<open>None\<close> for a
  link with no \<open>href\<close>.
\<close>

definition absolute_url :: "string option \<Rightarrow> error + string" where
  "absolute_url href =
     (case href of
        None \<Rightarrow> Inl AttributeError
      | Some u \<Rightarrow> Inr (if take 1 u = ''/'' then base_url @ u else u))"

text \<open>The loop of lines 165 to 169.\<close>

fun link_articles :: "(string list \<times> string option) list \<Rightarrow> error + article list" where
  "link_articles [] = Inr []"
| "link_articles ((spans, href) # links) =
     (case absolute_url href of
        Inl e \<Rightarrow> Inl e
      | Inr u \<Rightarrow>
          (case link_articles links of
             Inl e \<Rightarrow> Inl e
           | Inr as \<Rightarrow> Inr (Article u (join '' - '' spans) # as)))"

text \<open>The loop of lines 162 to 172.\<close>

fun list_sections ::
  "(string \<times> (string list \<times> string option) list) list \<Rightarrow> error + issue_section list" where
  "list_sections [] = Inr []"
| "list_sections ((name, links) # lis) =
     (case link_articles links of
        Inl e \<Rightarrow> Inl e
      | Inr as \<Rightarrow>
          (case list_sections lis of
             Inl e \<Rightarrow> Inl e
           | Inr secs \<Rightarrow> Inr (\<lparr>sec_title = name, articles = as\<rparr> # secs)))"

text \<open>\<open>fetch_issue\<close> (lines 144 to 172).\<close>

definition fetch_issue ::
  "world \<Rightarrow> economist \<Rightarrow> state \<Rightarrow> (error + economist) \<times> state" where
  "fetch_issue w ec s =
     (case fetch w s print_edition of
        (Inl e, s1) \<Rightarrow> (Inl e, s1)
      | (Inr res, s1) \<Rightarrow>
          (let date = last10 (res_url res)
           in case parse_issue w (res_text res) of
                Inl e \<Rightarrow> (Inl e, s1)
              | Inr (cover, lis) \<Rightarrow>
                  (case list_sections lis of
                     Inl e \<Rightarrow> (Inl e, s1)
                   | Inr secs \<Rightarrow>
                       (Inr (ec\<lparr>issue_id := ''the_economist_'' @ date,
                                issue_title := ''The Economist - '' @ date,
                                cover_img := (case cover of
                                                Some src \<Rightarrow> Some src
                                              | None \<Rightarrow> cover_img ec),
                                sections := sections ec @ secs\<rparr>),
                        s1))))"

subsection \<open>The book\<close>

text \<open>
  What the program hands to ebooklib: \<open>EpubHtml\<close> and \<open>EpubImage\<close> objects, the table of
  contents (a list of pairs of an \<open>epub.Section\<close>, which is a title and an href, and the
  items of the section) and the spine, whose entries are the strings 'cover' and 'nav'
  and the \<open>EpubHtml\<close> items.
\<close>

record epub_html =
  item_title :: string
  file_name :: string
  lang :: string
  item_content :: string

record epub_image =
  image_file_name :: string
  image_content :: image

datatype item = Html epub_html | Img epub_image | EpubNcx | EpubNav

datatype spine_entry = Cover | Nav | Doc epub_html

record book =
  book_title :: string
  book_identifier :: string
  book_language :: string
  authors :: "string list"
  cover :: "(string \<times> string) option"
  items :: "item list"
  toc :: "((string \<times> string) \<times> epub_html list) list"
  spine :: "spine_entry list"

definition EpubBook :: book where
  "EpubBook = \<lparr>book_title = [], book_identifier = [], book_language = [], authors = [],
                cover = None, items = [], toc = [], spine = []\<rparr>"

definition add_item :: "item \<Rightarrow> book \<Rightarrow> book" where
  "add_item x b = b\<lparr>items := items b @ [x]\<rparr>"

text \<open>The loop of lines 217 to 222: \<open>open\<close> raises when the file is not there.\<close>

fun add_images :: "state \<Rightarrow> string list \<Rightarrow> book \<Rightarrow> error + book" where
  "add_images s [] b = Inr b"
| "add_images s (filename # filenames) b =
     (case files s filename of
        None \<Rightarrow> Inl FileNotFoundError
      | Some data \<Rightarrow>
          add_images s filenames
            (add_item (Img \<lparr>image_file_name = filename, image_content = data\<rparr>) b))"

text \<open>The loop of lines 205 to 223, \<open>its\<close> the list \<open>items\<close> so far.\<close>

fun section_items ::
  "article list \<Rightarrow> book \<Rightarrow> epub_html list \<Rightarrow> state
     \<Rightarrow> (error + book \<times> epub_html list) \<times> state" where
  "section_items [] b its s = (Inr (b, its), s)"
| "section_items (a # as) b its s =
     (if content a = [] then
        section_items as b its (logging (url a @ '' could not be downloaded. Skipping.'') s)
      else
        (let it = \<lparr>item_title = title a, file_name = title a @ ''.xhtml'',
                   lang = language, item_content = content a\<rparr>
         in case add_images s (images a) b of
              Inl e \<Rightarrow> (Inl e, s)
            | Inr b1 \<Rightarrow> section_items as b1 (its @ [it]) s))"

text \<open>
  The loop of lines 202 to 229, with the local lists \<open>toc\<close> and \<open>spine\<close>. \<open>items[0]\<close>
  raises an \<open>IndexError\<close> on the empty list.
\<close>

fun add_sections ::
  "issue_section list \<Rightarrow> book \<Rightarrow> ((string \<times> string) \<times> epub_html list) list
     \<Rightarrow> spine_entry list \<Rightarrow> state
     \<Rightarrow> (error + book \<times> ((string \<times> string) \<times> epub_html list) list \<times> spine_entry list)
        \<times> state" where
  "add_sections [] b tc sp s = (Inr (b, tc, sp), s)"
| "add_sections (sec # secs) b tc sp s =
     (case section_items (articles sec) b [] s of
        (Inl e, s1) \<Rightarrow> (Inl e, s1)
      | (Inr (b1, its), s1) \<Rightarrow>
          (let b2 = fold add_item (map Html its) b1
           in case its of
                [] \<Rightarrow> (Inl IndexError, s1)
              | it # rest \<Rightarrow>
                  add_sections secs b2
                    (tc @ [((sec_title sec, file_name it), its)])
                    (sp @ map Doc its) s1))"

text \<open>The loop of lines 180 to 181.\<close>

fun build_sections ::
  "world \<Rightarrow> issue_section list \<Rightarrow> state \<Rightarrow> issue_section list \<times> state" where
  "build_sections w [] s = ([], s)"
| "build_sections w (sec # secs) s =
     (case Section_build w sec s of
        (sec', s1) \<Rightarrow>
          (case build_sections w secs s1 of
             (secs', s2) \<Rightarrow> (sec' # secs', s2)))"

text \<open>Lines 194 to 199: the cover, fetched when \<open>cover_img\<close> is truthy, and the spine.\<close>

definition add_cover ::
  "world \<Rightarrow> economist \<Rightarrow> book \<Rightarrow> state \<Rightarrow> (error + book \<times> spine_entry list) \<times> state" where
  "add_cover w ec b s =
     (case cover_img ec of
        None \<Rightarrow> (Inr (b, [Nav]), s)
      | Some src \<Rightarrow>
          (if src = [] then (Inr (b, [Nav]), s)
           else
             (case fetch w s src of
                (Inl e, s1) \<Rightarrow> (Inl e, s1)
              | (Inr res, s1) \<Rightarrow>
                  (Inr (b\<lparr>cover := Some (''image.jpg'', res_content res)\<rparr>, [Cover, Nav]),
                   s1))))"

text \<open>
  \<open>Economist.build\<close> (lines 174 to 239). \<open>info\<close> only prints. The result is what
  \<open>epub.write_epub\<close> receives: the name of the file and the book; the object itself,
  with its built sections, is returned too.
\<close>

definition Economist_build ::
  "world \<Rightarrow> economist \<Rightarrow> state \<Rightarrow> (error + string \<times> book) \<times> economist \<times> state" where
  "Economist_build w ec s =
     (case fetch_issue w ec s of
        (Inl e, s1) \<Rightarrow> (Inl e, ec, s1)
      | (Inr ec1, s1) \<Rightarrow>
          (case build_sections w (sections ec1) s1 of (secs, s2) \<Rightarrow>
             (let ec2 = ec1\<lparr>sections := secs\<rparr>;
                  b = EpubBook\<lparr>book_title := issue_title ec2, book_identifier := issue_id ec2,
                               book_language := language, authors := [author]\<rparr>
              in case add_cover w ec2 b s2 of
                   (Inl e, s3) \<Rightarrow> (Inl e, ec2, s3)
                 | (Inr (b1, sp), s3) \<Rightarrow>
                     (case add_sections (sections ec2) b1 [] sp s3 of
                        (Inl e, s4) \<Rightarrow> (Inl e, ec2, s4)
                      | (Inr (b2, tc, sp'), s4) \<Rightarrow>
                          (Inr (issue_id ec2 @ ''.epub'',
                                add_item EpubNav
                                  (add_item EpubNcx (b2\<lparr>toc := tc, spine := sp'\<rparr>))),
                           ec2, s4)))))"

section \<open>A concrete world\<close>

text \<open>
  A small world to run the program in. Every URL answers with a page, except those whose
  last segment is \<open>down\<close>; the index page redirects to a dated URL and lists one
  section of two articles, both down. Images decode to 800 by 303 pixels, except
  \<open>broken.png\<close>. The article \<open>six\<close> has six paragraphs and two images, the article
  \<open>one\<close> one paragraph and the same two images; any other article has a single
  paragraph and no image.
\<close>

definition state0 :: state where
  "state0 = \<lparr>rows = Map.empty, sql_faults = [], files = Map.empty, requests = [],
              logs = []\<rparr>"

definition page :: "string \<Rightarrow> response" where
  "page u = \<lparr>res_url = (if u = print_edition then u @ ''2017-01-07'' else u),
             res_text = ''<html>'' @ u, res_content = u\<rparr>"

definition two_images :: "string list" where
  "two_images = [''http://e.com/1.png'', ''http://e.com/2.png'']"

definition six_paragraphs :: string where
  "six_paragraphs = ''p1'' @ [CHR 0x0A] @ ''p2'' @ [CHR 0x0A] @ ''p3'' @ [CHR 0x0A]
                    @ ''p4'' @ [CHR 0x0A] @ ''p5'' @ [CHR 0x0A] @ ''p6''"

definition demo_world :: world where
  "demo_world = \<lparr>
     http = (\<lambda>hist u. if basename u = ''down'' then Inl RequestException
                       else Inr (page u)),
     md5_hexdigest = (\<lambda>u. ''0cc1''),
     image_open = (\<lambda>data. if basename data = ''broken.png'' then Inl UnidentifiedImageError
                            else Inr \<lparr>img_size = (800, 303), img_data = data\<rparr>),
     lanczos = (\<lambda>img sz. Inr (img_data img)),
     image_save = (\<lambda>img filename. None),
     extract_article = (\<lambda>h u.
        if basename u = ''six'' then
          Inr \<lparr>has_top_image = False, top_image = [], parsed_images = two_images,
               parsed_text = six_paragraphs\<rparr>
        else if basename u = ''one'' then
          Inr \<lparr>has_top_image = False, top_image = [], parsed_images = two_images,
               parsed_text = ''p1''\<rparr>
        else
          Inr \<lparr>has_top_image = False, top_image = [], parsed_images = [],
               parsed_text = ''text''\<rparr>),
     parse_issue = (\<lambda>t.
        Inr (None, [(''Leaders'', [([''Politics'', ''A''], Some ''/a/down''),
                                  ([''Trade''], Some ''/b/down'')])]))\<rparr>"

text \<open>
  A section of three articles, the second one down, and a list of articles as a build
  leaves them: two built ones with the same title around a failed one.
\<close>

definition three_articles :: issue_section where
  "three_articles = \<lparr>sec_title = ''Leaders'',
     articles = [Article ''http://e.com/first'' ''One'', Article ''http://e.com/down'' ''Two'',
                 Article ''http://e.com/third'' ''Three'']\<rparr>"

definition same_title :: "article list" where
  "same_title =
     [\<lparr>url = ''http://e.com/x'', title = ''Same'', html = Some ''x'', images = [],
        content = ''<h1>Same</h1>x''\<rparr>,
      \<lparr>url = ''http://e.com/f'', title = ''Failed'', html = None, images = [], content = []\<rparr>,
      \<lparr>url = ''http://e.com/y'', title = ''Same'', html = Some ''y'', images = [],
        content = ''<h1>Same</h1>y''\<rparr>]"

text \<open>What the extraction gives for the article \<open>six\<close>.\<close>

definition six_parsed :: parsed where
  "six_parsed = \<lparr>has_top_image = False, top_image = [], parsed_images = two_images,
                  parsed_text = six_paragraphs\<rparr>"

section \<open>Float arithmetic\<close>

text \<open>
  Rounding to a double leaves a number alone that has a mantissa of at most 53 bits, and
  keeps the sign of a number that is not negative.
\<close>

lemma pow2_powi: "pow2 k = 2 powi k"
  by (simp add: pow2_def power_int_def power_inverse inverse_eq_divide power_one_over)

lemma pow2_pos: "0 < pow2 k"
  by (simp add: pow2_powi)










lemma round_half_even_nonneg: "0 \<le> q \<Longrightarrow> 0 \<le> round_half_even q"
  by (simp add: round_half_even_def Let_def)

lemma fl_nonneg:
  assumes "0 \<le> q"
  shows "0 \<le> fl q"
proof -
  have "0 \<le> q / pow2 e" for e
    using assms pow2_pos [of e] by simp
  then have "0 \<le> round_half_even (q / pow2 e)" for e
    by (rule round_half_even_nonneg)
  then show ?thesis
    using pow2_pos by (simp add: fl_def Let_def less_imp_le)
qed





section \<open>The cache\<close>

lemma cursor_no_faults: "sql_faults s = [] \<Longrightarrow> cursor s = (None, s)"
  by (simp add: cursor_def)

lemma execute_no_faults: "sql_faults s = [] \<Longrightarrow> execute s = (None, s)"
  by (simp add: execute_def)

text \<open>
  Claim C5. On a storage that raises no error, for a URL with no row: \<open>get\<close> returns
  \<open>None\<close>; after \<open>set(url, h)\<close>, \<open>get\<close> returns exactly \<open>h\<close>; a second \<open>set\<close> for the
  same URL fails, with an \<open>IntegrityError\<close>, and leaves the table as it was, so that
  \<open>get\<close> still returns \<open>h\<close>.
\<close>

theorem Database_set_get:
  assumes "sql_faults s = []" and "rows s u = None"
  shows "fst (Database_get s u) = Inr None \<and>
         (let s1 = snd (Database_set s u h); s2 = snd (Database_set s1 u h')
          in fst (Database_set s u h) = Inr () \<and>
             fst (Database_get s1 u) = Inr (Some h) \<and>
             fst (Database_set s1 u h') = Inl IntegrityError \<and>
             rows s2 = rows s1 \<and>
             fst (Database_get s2 u) = Inr (Some h))"
  using assms
  by (simp add: Database_get_def Database_set_def cursor_no_faults execute_no_faults Let_def)

theorem Database_set_get_witness:
  "sql_faults state0 = [] \<and> rows state0 ''http://e.com/a'' = None \<and>
   fst (Database_get state0 ''http://e.com/a'') = Inr None \<and>
   fst (Database_get (snd (Database_set state0 ''http://e.com/a'' ''<p>x</p>''))
          ''http://e.com/a'') = Inr (Some ''<p>x</p>'') \<and>
   fst (Database_set (snd (Database_set state0 ''http://e.com/a'' ''<p>x</p>''))
          ''http://e.com/a'' ''<p>y</p>'') = Inl IntegrityError"
proof -
  have h1: "sql_faults state0 = []" by (simp add: state0_def)
  have h2: "rows state0 ''http://e.com/a'' = None" by (simp add: state0_def)
  show ?thesis
    using h1 h2 Database_set_get [OF h1 h2, of "''<p>x</p>''" "''<p>y</p>''"]
    by (simp add: Let_def)
qed

lemma Database_get_keeps:
  "rows (snd (Database_get s u)) = rows s \<and> requests (snd (Database_get s u)) = requests s \<and>
   files (snd (Database_get s u)) = files s"
  by (simp add: Database_get_def cursor_def execute_def logging_def
        split: list.splits option.splits)




section \<open>Images\<close>

text \<open>
  Claim C6. \<open>download_image\<close> is idempotent. When the file named after the URL exists,
  the call returns its path and leaves the state as it is: no request is made and nothing
  is decoded. When a call returns a path, it is the path named after the URL, a second
  call returns the same path and changes nothing, and over both calls at most one request
  has been made.
\<close>

theorem download_image_idempotent:
  "(files s (image_filename w u) \<noteq> None \<longrightarrow>
      download_image w s u mw = (Inr (image_filename w u), s)) \<and>
   (\<forall>p s1. download_image w s u mw = (Inr p, s1) \<longrightarrow>
      p = image_filename w u \<and>
      download_image w s1 u mw = (Inr p, s1) \<and>
      (requests s1 = requests s \<or> requests s1 = requests s @ [u]))"
  by (auto simp: download_image_def fetch_def Let_def
           split: sum.splits option.splits if_splits)

theorem download_image_idempotent_witness:
  "fst (download_image demo_world state0 ''http://e.com/1.png'' 400) = Inr ''images/0cc1-1.png'' \<and>
   download_image demo_world
     (snd (download_image demo_world state0 ''http://e.com/1.png'' 400))
     ''http://e.com/1.png'' 400 =
   (Inr ''images/0cc1-1.png'', snd (download_image demo_world state0 ''http://e.com/1.png'' 400)) \<and>
   requests (snd (download_image demo_world state0 ''http://e.com/1.png'' 400)) =
     [''http://e.com/1.png'']"
proof -
  have a: "fst (download_image demo_world state0 ''http://e.com/1.png'' 400) =
           Inr ''images/0cc1-1.png''"
    by code_simp
  have r: "requests (snd (download_image demo_world state0 ''http://e.com/1.png'' 400)) =
           [''http://e.com/1.png'']"
    by code_simp
  have "download_image demo_world state0 ''http://e.com/1.png'' 400 =
        (Inr ''images/0cc1-1.png'',
         snd (download_image demo_world state0 ''http://e.com/1.png'' 400))"
    using a by (simp add: prod_eq_iff)
  with download_image_idempotent [of state0 demo_world "''http://e.com/1.png''" 400] a r
  show ?thesis by blast
qed




section \<open>Downloading an article\<close>







lemma cursor_keeps_rows: "cursor s = (f, s') \<Longrightarrow> rows s' = rows s"
  by (auto simp: cursor_def split: list.splits)

lemma execute_keeps_rows: "execute s = (f, s') \<Longrightarrow> rows s' = rows s"
  by (auto simp: execute_def split: list.splits)

text \<open>
  Claim C3, as amended. Let the URL of an article have a row, let \<open>Database.get\<close> return
  a falsy value (the row holds the empty string or NULL, or the SELECT failed), let the
  fetch succeed, and let the write be attempted: the cursor is obtained and the INSERT
  is executed. Then the duplicate-key failure of the write is not caught at the cache:
  \<open>Database.set\<close> raises \<open>IntegrityError\<close>, which leaves \<open>Article.download\<close> and
  \<open>Article.build\<close>; the article keeps the fetched text in \<open>html\<close>, but its build does
  not go on and its content stays as it was. The loop of \<open>Section.build\<close> catches the
  exception, logs \<open>cannot build article\<close> and goes on with the next article.
\<close>

theorem duplicate_key_fails_article:
  assumes present: "rows s (url a) = Some v"
      and missed: "Database_get s (url a) = (Inr c, s1)"
      and falsy: "\<not> truthy c"
      and fetched: "http w (requests s1) (url a) = Inr res"
      and s2: "s2 = s1\<lparr>requests := requests s1 @ [url a]\<rparr>"
      and cur: "cursor s2 = (None, s3)"
      and ins: "execute s3 = (None, s4)"
  shows "Database_set s2 (url a) (res_text res) = (Inl IntegrityError, s4) \<and>
         Article_download w a s =
           (Inl IntegrityError, a\<lparr>html := Some (res_text res)\<rparr>, s4) \<and>
         Article_build w a s =
           (Inl IntegrityError, a\<lparr>html := Some (res_text res)\<rparr>, s4) \<and>
         content (fst (snd (Article_build w a s))) = content a \<and>
         build_articles w (a # as) s =
           (a\<lparr>html := Some (res_text res)\<rparr> #
              fst (build_articles w as (logging ''cannot build article'' s4)),
            snd (build_articles w as (logging ''cannot build article'' s4)))"
proof -
  have "rows s1 = rows s"
    using Database_get_keeps [of s "url a"] missed by simp
  then have "rows s2 = rows s" by (simp add: s2)
  then have "rows s4 = rows s"
    using cursor_keeps_rows [OF cur] execute_keeps_rows [OF ins] by simp
  then have set: "Database_set s2 (url a) (res_text res) = (Inl IntegrityError, s4)"
    using present cur ins by (simp add: Database_set_def)
  have dl: "Article_download w a s =
      (Inl IntegrityError, a\<lparr>html := Some (res_text res)\<rparr>, s4)"
    using missed falsy fetched set
    by (simp add: Article_download_def fetch_def Let_def s2 [symmetric])
  have bd: "Article_build w a s =
      (Inl IntegrityError, a\<lparr>html := Some (res_text res)\<rparr>, s4)"
    using dl by (simp add: Article_build_def)
  show ?thesis using set dl bd by (simp add: split_beta)
qed

theorem duplicate_key_fails_article_witness:
  "rows (state0\<lparr>rows := [''http://e.com/a'' \<mapsto> Some []]\<rparr>) ''http://e.com/a'' = Some (Some []) \<and>
   \<not> truthy (Some []) \<and>
   http demo_world [] ''http://e.com/a'' = Inr (page ''http://e.com/a'') \<and>
   build_articles demo_world [Article ''http://e.com/a'' ''A'']
     (state0\<lparr>rows := [''http://e.com/a'' \<mapsto> Some []]\<rparr>) =
   ([(Article ''http://e.com/a'' ''A'')\<lparr>html := Some ''<html>http://e.com/a''\<rparr>],
    state0\<lparr>rows := [''http://e.com/a'' \<mapsto> Some []], requests := [''http://e.com/a''],
           logs := [''cannot build article'']\<rparr>) \<and>
   rows (state0\<lparr>rows := [''http://e.com/a'' \<mapsto> Some ''<p>x</p>''],
                sql_faults := [None, Some OperationalError]\<rparr>) ''http://e.com/a'' =
     Some (Some ''<p>x</p>'') \<and>
   \<not> truthy None \<and>
   build_articles demo_world [Article ''http://e.com/a'' ''A'']
     (state0\<lparr>rows := [''http://e.com/a'' \<mapsto> Some ''<p>x</p>''],
             sql_faults := [None, Some OperationalError]\<rparr>) =
   ([(Article ''http://e.com/a'' ''A'')\<lparr>html := Some ''<html>http://e.com/a''\<rparr>],
    state0\<lparr>rows := [''http://e.com/a'' \<mapsto> Some ''<p>x</p>''], requests := [''http://e.com/a''],
           logs := [''cannot get article: http://e.com/a'', ''cannot build article'']\<rparr>)"
proof -
  let ?u = "''http://e.com/a''"
  let ?a = "Article ?u ''A''"
  let ?s = "state0\<lparr>rows := [?u \<mapsto> Some []]\<rparr>"
  let ?s2 = "?s\<lparr>requests := requests ?s @ [url ?a]\<rparr>"
  let ?t = "state0\<lparr>rows := [?u \<mapsto> Some ''<p>x</p>''],
                   sql_faults := [None, Some OperationalError]\<rparr>"
  let ?t1 = "state0\<lparr>rows := [?u \<mapsto> Some ''<p>x</p>''],
                    logs := [''cannot get article: http://e.com/a'']\<rparr>"
  let ?t2 = "?t1\<lparr>requests := requests ?t1 @ [url ?a]\<rparr>"
  have h: "http demo_world [] ?u = Inr (page ?u)"
    by (simp add: demo_world_def basename_def)
  have tx: "res_text (page ?u) = ''<html>http://e.com/a''"
    by (simp add: page_def print_edition_def base_url_def)
  have a1: "rows ?s (url ?a) = Some (Some [])" by (simp add: Article_def)
  have a2: "Database_get ?s (url ?a) = (Inr (Some []), ?s)"
    by (simp add: Database_get_def cursor_def execute_def state0_def Article_def)
  have a3: "\<not> truthy (Some [])" by (simp add: truthy_def)
  have a4: "http demo_world (requests ?s) (url ?a) = Inr (page ?u)"
    using h by (simp add: state0_def Article_def)
  have a5: "cursor ?s2 = (None, ?s2)" by (simp add: cursor_def state0_def)
  have a6: "execute ?s2 = (None, ?s2)" by (simp add: execute_def state0_def)
  have A: "build_articles demo_world [?a] ?s =
      ([?a\<lparr>html := Some ''<html>http://e.com/a''\<rparr>],
       state0\<lparr>rows := [?u \<mapsto> Some []], requests := [?u], logs := [''cannot build article'']\<rparr>)"
    using duplicate_key_fails_article [OF a1 a2 a3 a4 refl a5 a6, of "[]"]
    by (simp add: tx state0_def Article_def logging_def)
  have b1: "rows ?t (url ?a) = Some (Some ''<p>x</p>'')" by (simp add: Article_def)
  have b2: "Database_get ?t (url ?a) = (Inr None, ?t1)"
    by (simp add: Database_get_def cursor_def execute_def state0_def Article_def logging_def)
  have b3: "\<not> truthy None" by (simp add: truthy_def)
  have b4: "http demo_world (requests ?t1) (url ?a) = Inr (page ?u)"
    using h by (simp add: state0_def Article_def)
  have b5: "cursor ?t2 = (None, ?t2)" by (simp add: cursor_def state0_def)
  have b6: "execute ?t2 = (None, ?t2)" by (simp add: execute_def state0_def)
  have B: "build_articles demo_world [?a] ?t =
      ([?a\<lparr>html := Some ''<html>http://e.com/a''\<rparr>],
       state0\<lparr>rows := [?u \<mapsto> Some ''<p>x</p>''], requests := [?u],
              logs := [''cannot get article: http://e.com/a'', ''cannot build article'']\<rparr>)"
    using duplicate_key_fails_article [OF b1 b2 b3 b4 refl b5 b6, of "[]"]
    by (simp add: tx state0_def Article_def logging_def)
  have r1: "rows ?s ?u = Some (Some [])" by simp
  have r2: "rows ?t ?u = Some (Some ''<p>x</p>'')" by simp
  show ?thesis using r1 a3 h A r2 b3 B by blast
qed

text \<open>
  With the empty string cached for its URL, the article does not build: the build ends
  with \<open>IntegrityError\<close>, the content stays empty, and nothing has been logged when the
  exception leaves \<open>Article.build\<close>.
\<close>

theorem duplicate_key_counterexample:
  "rows (state0\<lparr>rows := [''http://e.com/a'' \<mapsto> Some []]\<rparr>) ''http://e.com/a'' = Some (Some []) \<and>
   fst (Article_build demo_world (Article ''http://e.com/a'' ''A'')
          (state0\<lparr>rows := [''http://e.com/a'' \<mapsto> Some []]\<rparr>)) = Inl IntegrityError \<and>
   content (fst (snd (Article_build demo_world (Article ''http://e.com/a'' ''A'')
          (state0\<lparr>rows := [''http://e.com/a'' \<mapsto> Some []]\<rparr>)))) = [] \<and>
   logs (snd (snd (Article_build demo_world (Article ''http://e.com/a'' ''A'')
          (state0\<lparr>rows := [''http://e.com/a'' \<mapsto> Some []]\<rparr>)))) = []"
  by code_simp

section \<open>Building a section\<close>

lemma Article_download_url:
  "url (fst (snd (Article_download w a s))) = url a \<and>
   title (fst (snd (Article_download w a s))) = title a"
  by (simp add: Article_download_def Let_def split: prod.splits sum.splits)

lemma space_out_url:
  "url (fst (snd (space_out w rate i imgs a ps s))) = url a \<and>
   title (fst (snd (space_out w rate i imgs a ps s))) = title a"
proof (induction imgs arbitrary: i a ps s)
  case Nil
  then show ?case by simp
next
  case (Cons img imgs)
  show ?case
  proof (cases "download_image w s img 400")
    case (Pair r s1)
    then show ?thesis
      using Cons.IH by (cases r) (simp_all add: Let_def)
  qed
qed

lemma add_top_image_url:
  "url (fst (snd (add_top_image w p c a s))) = url a \<and>
   title (fst (snd (add_top_image w p c a s))) = title a"
  by (simp add: add_top_image_def split: prod.splits sum.splits)

lemma add_paragraphs_url:
  "url (fst (snd (add_paragraphs w p c a s))) = url a \<and>
   title (fst (snd (add_paragraphs w p c a s))) = title a"
proof -
  have "\<And>rate imgs ps a1 s1 r.
          space_out w rate 1 imgs a ps s = (r, a1, s1) \<Longrightarrow> url a1 = url a \<and> title a1 = title a"
    using space_out_url by (metis fst_conv snd_conv)
  then show ?thesis
    by (auto simp: add_paragraphs_def Let_def split: prod.splits sum.splits)
qed

lemma Article_build_url:
  "url (fst (snd (Article_build w a s))) = url a \<and>
   title (fst (snd (Article_build w a s))) = title a"
proof -
  have d: "\<And>r a1 s1. Article_download w a s = (r, a1, s1) \<Longrightarrow> url a1 = url a \<and> title a1 = title a"
    using Article_download_url by (metis fst_conv snd_conv)
  have t: "\<And>p c a1 s1 r a2 s2. add_top_image w p c a1 s1 = (r, a2, s2) \<Longrightarrow>
             url a2 = url a1 \<and> title a2 = title a1"
    using add_top_image_url by (metis fst_conv snd_conv)
  show ?thesis
    using add_paragraphs_url
    by (auto simp: Article_build_def split: prod.splits sum.splits option.splits dest!: d t)
qed

lemma build_articles_Cons:
  "build_articles w (a # as) s =
     (fst (snd (Article_build w a s)) #
        fst (build_articles w as
               (case fst (Article_build w a s) of
                  Inl e \<Rightarrow> logging ''cannot build article'' (snd (snd (Article_build w a s)))
                | Inr u \<Rightarrow> snd (snd (Article_build w a s)))),
      snd (build_articles w as
             (case fst (Article_build w a s) of
                Inl e \<Rightarrow> logging ''cannot build article'' (snd (snd (Article_build w a s)))
              | Inr u \<Rightarrow> snd (snd (Article_build w a s)))))"
  by (simp split: prod.splits sum.splits)

lemma build_articles_append:
  "build_articles w (xs @ ys) s =
     (fst (build_articles w xs s) @ fst (build_articles w ys (snd (build_articles w xs s))),
      snd (build_articles w ys (snd (build_articles w xs s))))"
proof (induction xs arbitrary: s)
  case Nil
  then show ?case by simp
next
  case (Cons x xs)
  show ?case
    by (simp only: append_Cons build_articles_Cons Cons.IH fst_conv snd_conv)
qed

lemma build_articles_length: "length (fst (build_articles w as s)) = length as"
proof (induction as arbitrary: s)
  case Nil
  then show ?case by simp
next
  case (Cons a as)
  show ?case
    by (simp only: build_articles_Cons fst_conv length_Cons Cons.IH)
qed

lemma build_articles_single:
  "build_articles w [a] s =
     ([fst (snd (Article_build w a s))],
      (case fst (Article_build w a s) of
         Inl e \<Rightarrow> logging ''cannot build article'' (snd (snd (Article_build w a s)))
       | Inr u \<Rightarrow> snd (snd (Article_build w a s))))"
  by (simp only: build_articles_Cons build_articles.simps(1) fst_conv snd_conv)

lemma build_articles_nth:
  assumes "k < length as"
  shows "fst (build_articles w as s) ! k =
           fst (snd (Article_build w (as ! k) (snd (build_articles w (take k as) s)))) \<and>
         snd (build_articles w (take (Suc k) as) s) =
           (case fst (Article_build w (as ! k) (snd (build_articles w (take k as) s))) of
              Inl e \<Rightarrow> logging ''cannot build article''
                         (snd (snd (Article_build w (as ! k) (snd (build_articles w (take k as) s)))))
            | Inr u \<Rightarrow> snd (snd (Article_build w (as ! k) (snd (build_articles w (take k as) s)))))"
proof -
  let ?s = "snd (build_articles w (take k as) s)"
  have as: "as = take k as @ [as ! k] @ drop (Suc k) as"
    using assms by (simp add: id_take_nth_drop)
  have len: "length (fst (build_articles w (take k as) s)) = k"
    using assms by (simp add: build_articles_length)
  have "fst (build_articles w as s) =
          fst (build_articles w (take k as) s) @
          fst (build_articles w ([as ! k] @ drop (Suc k) as) ?s)"
    by (subst as) (simp only: build_articles_append fst_conv)
  then have "fst (build_articles w as s) ! k =
          fst (build_articles w ([as ! k] @ drop (Suc k) as) ?s) ! 0"
    using len by (simp add: nth_append)
  also have "\<dots> = fst (snd (Article_build w (as ! k) ?s))"
    by (simp only: build_articles_append build_articles_single fst_conv) simp
  finally have one: "fst (build_articles w as s) ! k = fst (snd (Article_build w (as ! k) ?s))" .
  have "take (Suc k) as = take k as @ [as ! k]"
    using assms by (simp add: take_Suc_conv_app_nth)
  then have two: "snd (build_articles w (take (Suc k) as) s) =
      snd (build_articles w [as ! k] ?s)"
    by (simp only: build_articles_append snd_conv)
  show ?thesis using one two by (simp only: build_articles_single snd_conv)
qed

text \<open>
  Claim C7. \<open>Section.build\<close> has no exceptional result. It keeps the title and the
  number of articles; the article at index \<open>k\<close> of the result is what one
  \<open>Article.build\<close> leaves of the article at index \<open>k\<close>, run in the state left by the
  builds of the articles before it, and it keeps its URL; after that build the state is
  the one the build left, with the record \<open>cannot build article\<close> logged when the build
  raised. So every article is built once, in list order, whatever the earlier builds did.
\<close>

theorem Section_build_every_article_once:
  "sec_title (fst (Section_build w sec s)) = sec_title sec \<and>
   length (articles (fst (Section_build w sec s))) = length (articles sec) \<and>
   snd (Section_build w sec s) = snd (build_articles w (articles sec) s) \<and>
   (\<forall>k < length (articles sec).
      articles (fst (Section_build w sec s)) ! k =
        fst (snd (Article_build w (articles sec ! k)
                    (snd (build_articles w (take k (articles sec)) s)))) \<and>
      url (articles (fst (Section_build w sec s)) ! k) = url (articles sec ! k) \<and>
      snd (build_articles w (take (Suc k) (articles sec)) s) =
        (case fst (Article_build w (articles sec ! k)
                     (snd (build_articles w (take k (articles sec)) s))) of
           Inl e \<Rightarrow> logging ''cannot build article''
                      (snd (snd (Article_build w (articles sec ! k)
                                   (snd (build_articles w (take k (articles sec)) s)))))
         | Inr u \<Rightarrow> snd (snd (Article_build w (articles sec ! k)
                                 (snd (build_articles w (take k (articles sec)) s))))))"
proof -
  have r: "Section_build w sec s =
      (sec\<lparr>articles := fst (build_articles w (articles sec) s)\<rparr>,
       snd (build_articles w (articles sec) s))"
    by (simp add: Section_build_def split: prod.splits)
  show ?thesis
    using build_articles_nth [of _ "articles sec" w s]
    by (simp add: r build_articles_length Article_build_url)
qed

theorem Section_build_every_article_once_witness:
  "(1::nat) < length (articles three_articles) \<and>
   articles (fst (Section_build demo_world three_articles state0)) ! 1 =
     fst (snd (Article_build demo_world (articles three_articles ! 1)
                 (snd (build_articles demo_world (take 1 (articles three_articles)) state0)))) \<and>
   map url (articles (fst (Section_build demo_world three_articles state0))) =
     [''http://e.com/first'', ''http://e.com/down'', ''http://e.com/third''] \<and>
   map content (articles (fst (Section_build demo_world three_articles state0))) =
     [''<h1>One</h1>text'', [], ''<h1>Three</h1>text''] \<and>
   logs (snd (Section_build demo_world three_articles state0)) = [''cannot build article'']"
proof -
  have k: "(1::nat) < length (articles three_articles)"
    by (simp add: three_articles_def)
  have c: "map url (articles (fst (Section_build demo_world three_articles state0))) =
             [''http://e.com/first'', ''http://e.com/down'', ''http://e.com/third''] \<and>
           map content (articles (fst (Section_build demo_world three_articles state0))) =
             [''<h1>One</h1>text'', [], ''<h1>Three</h1>text''] \<and>
           logs (snd (Section_build demo_world three_articles state0)) =
             [''cannot build article'']"
    by code_simp
  from Section_build_every_article_once [of demo_world three_articles state0] k
  have "articles (fst (Section_build demo_world three_articles state0)) ! 1 =
     fst (snd (Article_build demo_world (articles three_articles ! 1)
                 (snd (build_articles demo_world (take 1 (articles three_articles)) state0))))"
    by blast
  with k c show ?thesis by blast
qed

section \<open>The items of the book\<close>

lemma section_items_result:
  "section_items as b its s = (Inr (b', its'), s') \<Longrightarrow>
   its' = its @ map (\<lambda>a. \<lparr>item_title = title a, file_name = title a @ ''.xhtml'',
                              lang = language, item_content = content a\<rparr>)
                   (filter (\<lambda>a. content a \<noteq> []) as)"
proof (induction as arbitrary: b its s)
  case Nil
  then show ?case by simp
next
  case (Cons a as)
  show ?case
  proof (cases "content a = []")
    case True
    then show ?thesis using Cons.prems Cons.IH by simp
  next
    case False
    then show ?thesis
      using Cons.prems
      by (cases "add_images s (images a) b") (auto simp: Let_def dest!: Cons.IH)
  qed
qed

text \<open>
  Claim C10. When the loop over the articles of a section ends without an exception, its
  items are those of the articles with a content, in order: the item of an article has
  the article's title and content, and its file name is the title followed by
  \<open>.xhtml\<close>. So two items with the same title have the same file name.
\<close>

theorem section_items_file_names:
  assumes "section_items as b [] s = (Inr (b', its), s')"
  shows "map item_title its = map title (filter (\<lambda>a. content a \<noteq> []) as) \<and>
         map item_content its = map content (filter (\<lambda>a. content a \<noteq> []) as) \<and>
         map file_name its = map (\<lambda>a. title a @ ''.xhtml'') (filter (\<lambda>a. content a \<noteq> []) as) \<and>
         (\<forall>i < length its. \<forall>j < length its.
            item_title (its ! i) = item_title (its ! j) \<longrightarrow>
            file_name (its ! i) = file_name (its ! j))"
proof -
  let ?mk = "\<lambda>a. \<lparr>item_title = title a, file_name = title a @ ''.xhtml'',
                   lang = language, item_content = content a\<rparr>"
  have its: "its = map ?mk (filter (\<lambda>a. content a \<noteq> []) as)"
    using section_items_result [OF assms] by simp
  have fn: "\<And>i. i < length its \<Longrightarrow> file_name (its ! i) = item_title (its ! i) @ ''.xhtml''"
    by (simp add: its)
  show ?thesis
    using fn by (simp add: its comp_def)
qed

theorem section_items_file_names_witness:
  "fst (section_items same_title EpubBook [] state0) =
     Inr (EpubBook,
          [\<lparr>item_title = ''Same'', file_name = ''Same.xhtml'', lang = ''en'',
             item_content = ''<h1>Same</h1>x''\<rparr>,
           \<lparr>item_title = ''Same'', file_name = ''Same.xhtml'', lang = ''en'',
             item_content = ''<h1>Same</h1>y''\<rparr>]) \<and>
   map file_name (snd (projr (fst (section_items same_title EpubBook [] state0)))) =
     map (\<lambda>a. title a @ ''.xhtml'') (filter (\<lambda>a. content a \<noteq> []) same_title)"
proof -
  have c: "fst (section_items same_title EpubBook [] state0) =
     Inr (EpubBook,
          [\<lparr>item_title = ''Same'', file_name = ''Same.xhtml'', lang = ''en'',
             item_content = ''<h1>Same</h1>x''\<rparr>,
           \<lparr>item_title = ''Same'', file_name = ''Same.xhtml'', lang = ''en'',
             item_content = ''<h1>Same</h1>y''\<rparr>])"
    by code_simp
  then have e: "section_items same_title EpubBook [] state0 =
     (Inr (EpubBook, snd (projr (fst (section_items same_title EpubBook [] state0)))),
      snd (section_items same_title EpubBook [] state0))"
    by (simp add: prod_eq_iff)
  from section_items_file_names [OF e] c show ?thesis by blast
qed

section \<open>Assembling the book\<close>

text \<open>
  A section none of whose articles has a content leaves the list \<open>items\<close> empty, and
  \<open>items[0]\<close> raises: the loop over the sections ends with an \<open>IndexError\<close>, whatever
  the other sections hold.
\<close>

lemma section_items_all_empty:
  "\<forall>a \<in> set as. content a = [] \<Longrightarrow> fst (section_items as b its s) = Inr (b, its)"
  by (induction as arbitrary: s) simp_all

lemma add_sections_empty_section:
  assumes "\<forall>a \<in> set (articles sec). content a = []"
  shows "fst (add_sections (sec # secs) b tc sp s) = Inl IndexError"
proof -
  obtain s1 where "section_items (articles sec) b [] s = (Inr (b, []), s1)"
    using section_items_all_empty [OF assms, of b "[]" s]
    by (cases "section_items (articles sec) b [] s") simp
  then show ?thesis by simp
qed

text \<open>
  Claim C2. The issue of the concrete world has one section of two articles, and both
  fail to build. \<open>Economist.build\<close> leaves both with an empty content and then ends
  with an \<open>IndexError\<close>: no book is written.
\<close>

theorem Economist_build_empty_section:
  "map (\<lambda>sec. map content (articles sec))
     (sections (fst (snd (Economist_build demo_world Economist state0)))) = [[[], []]] \<and>
   fst (Economist_build demo_world Economist state0) = Inl IndexError"
  by code_simp

section \<open>Spacing the images out\<close>

lemma list_insert_at:
  assumes "0 \<le> pos"
  shows "list_insert xs pos v =
           take (min (nat pos) (length xs)) xs @ v # drop (min (nat pos) (length xs)) xs"
proof -
  have "nat (min pos (int (length xs))) = min (nat pos) (length xs)"
    using assms by linarith
  then show ?thesis using assms by (simp only: list_insert_def Let_def) simp
qed

lemma space_out_append:
  "space_out w rate i (xs @ ys) a ps s =
     (case space_out w rate i xs a ps s of
        (Inl e, a1, s1) \<Rightarrow> (Inl e, a1, s1)
      | (Inr ps1, a1, s1) \<Rightarrow> space_out w rate (i + int (length xs)) ys a1 ps1 s1)"
proof (induction xs arbitrary: i a ps s)
  case Nil
  then show ?case by simp
next
  case (Cons x xs)
  have "i + 1 + int (length xs) = i + int (length (x # xs))" by simp
  then show ?case
    by (simp add: Cons.IH Let_def add.assoc split: prod.splits sum.splits)
qed

lemma space_out_length:
  "space_out w rate i imgs a ps s = (Inr ps', a', s') \<Longrightarrow>
   length ps' = length ps + length imgs"
proof (induction imgs arbitrary: i a ps s)
  case Nil
  then show ?case by simp
next
  case (Cons x xs)
  then show ?case
    by (auto simp: Let_def list_insert_def split: prod.splits sum.splits)
qed

lemma space_out_step:
  assumes run: "space_out w rate 1 imgs a ps s = (Inr ps', a', s')"
      and k: "k < length imgs"
  shows "\<exists>ps0 a0 s0 f s1.
           space_out w rate 1 (take k imgs) a ps s = (Inr ps0, a0, s0) \<and>
           length ps0 = length ps + k \<and>
           download_image w s0 (imgs ! k) 400 = (Inr f, s1) \<and>
           space_out w rate 1 (take (Suc k) imgs) a ps s =
             (Inr (list_insert ps0
                     (py_round (int_mul_float (int k + 1) rate) + (int k + 1)) (img_tag f)),
              a0\<lparr>images := images a0 @ [f]\<rparr>, s1)"
proof -
  have split: "imgs = take (Suc k) imgs @ drop (Suc k) imgs" by simp
  have tk: "take (Suc k) imgs = take k imgs @ [imgs ! k]"
    using k by (simp add: take_Suc_conv_app_nth)
  obtain r1 a1 s1 where p1: "space_out w rate 1 (take (Suc k) imgs) a ps s = (r1, a1, s1)"
    by (cases "space_out w rate 1 (take (Suc k) imgs) a ps s") auto
  obtain ps1 where r1: "r1 = Inr ps1"
    using run p1 space_out_append [of w rate 1 "take (Suc k) imgs" "drop (Suc k) imgs" a ps s]
    by (cases r1) simp_all
  obtain r0 a0 s0 where p0: "space_out w rate 1 (take k imgs) a ps s = (r0, a0, s0)"
    by (cases "space_out w rate 1 (take k imgs) a ps s") auto
  have st: "space_out w rate 1 (take k imgs @ [imgs ! k]) a ps s = (Inr ps1, a1, s1)"
    using p1 r1 tk by simp
  obtain ps0 where r0: "r0 = Inr ps0"
    using st p0 space_out_append [of w rate 1 "take k imgs" "[imgs ! k]" a ps s]
    by (cases r0) simp_all
  have lk: "length (take k imgs) = k" using k by simp
  have len: "length ps0 = length ps + k"
    using space_out_length [of w rate 1 "take k imgs" a ps s ps0 a0 s0] p0 r0 lk by simp
  have one: "space_out w rate (1 + int k) [imgs ! k] a0 ps0 s0 = (Inr ps1, a1, s1)"
  proof -
    have "space_out w rate 1 (take k imgs @ [imgs ! k]) a ps s =
          space_out w rate (1 + int (length (take k imgs))) [imgs ! k] a0 ps0 s0"
      by (simp only: space_out_append p0 r0 prod.case sum.case)
    then have "space_out w rate (1 + int (length (take k imgs))) [imgs ! k] a0 ps0 s0 =
          (Inr ps1, a1, s1)"
      using st by (rule subst)
    then show ?thesis by (simp only: lk)
  qed
  obtain d s2 where dl: "download_image w s0 (imgs ! k) 400 = (d, s2)"
    by (cases "download_image w s0 (imgs ! k) 400") auto
  obtain f where d: "d = Inr f"
    using one dl by (cases d) (simp_all add: Let_def)
  have res: "ps1 = list_insert ps0
               (py_round (int_mul_float (int k + 1) rate) + (int k + 1)) (img_tag f) \<and>
             a1 = a0\<lparr>images := images a0 @ [f]\<rparr> \<and> s1 = s2"
    using one dl d by (simp add: Let_def add.commute)
  show ?thesis
    using p0 r0 len dl d p1 r1 res by auto
qed

lemma int_truediv_nonneg:
  "0 \<le> a \<Longrightarrow> 0 < b \<Longrightarrow> int_truediv a b = Inr r \<Longrightarrow> 0 \<le> r"
  by (auto simp: int_truediv_def intro!: fl_nonneg)

lemma position_nonneg:
  assumes "0 \<le> rate" and "0 \<le> i"
  shows "0 \<le> py_round (int_mul_float i rate) + i"
proof -
  have "0 \<le> fl (of_int i)" using assms by (simp add: fl_nonneg)
  then have "0 \<le> fl (of_int i) * rate" using assms by simp
  then have "0 \<le> int_mul_float i rate" by (simp add: int_mul_float_def fl_nonneg)
  then show ?thesis using assms by (simp add: py_round_def round_half_even_nonneg)
qed

lemma six_over_three:
  "int_truediv 6 3 = Inr 2 \<and> py_round (int_mul_float 1 2) + 1 = 3 \<and>
   py_round (int_mul_float 2 2) + 2 = 6"
  by code_simp

text \<open>
  Claim C1, as amended. Let an article body have the paragraphs \<open>paragraphs\<close> (the text
  split at newlines) and the images \<open>imgs\<close> (those that are not the top image), and let
  \<open>add_paragraphs\<close> succeed. Then \<open>rate\<close> is the float
  \<open>len(paragraphs) / (len(imgs) + 1)\<close>, and the image at index \<open>k\<close> (counted from 0,
  so \<open>i = k + 1\<close>) is downloaded in the state left by the images before it and its
  block is inserted into the list left by them, of length \<open>len(paragraphs) + k\<close>, at
  position \<open>round(i * rate) + i\<close> if that is an index of the list or its length, and
  at the end of the list otherwise. The final list has one entry more for every image
  and is joined into the content. With 6 paragraphs and 2 images the rate is 2 and the
  positions are 3 and 6.
\<close>

theorem add_paragraphs_positions:
  assumes imgs: "imgs = filter (\<lambda>i. i \<noteq> top_image p) (parsed_images p)"
      and pars: "paragraphs = split_on (CHR 0x0A) (parsed_text p)"
      and build: "add_paragraphs w p c a s = (Inr (), a', s')"
      and k: "k < length imgs"
  shows "\<exists>rate ps' ps0 a0 s0 f s1.
           int_truediv (int (length paragraphs)) (int (length imgs) + 1) = Inr rate \<and>
           fst (space_out w rate 1 imgs a paragraphs s) = Inr ps' \<and>
           length ps' = length paragraphs + length imgs \<and>
           content a' = c @ join ''<br>'' ps' \<and>
           space_out w rate 1 (take k imgs) a paragraphs s = (Inr ps0, a0, s0) \<and>
           length ps0 = length paragraphs + k \<and>
           download_image w s0 (imgs ! k) 400 = (Inr f, s1) \<and>
           0 \<le> py_round (int_mul_float (int k + 1) rate) + (int k + 1) \<and>
           space_out w rate 1 (take (Suc k) imgs) a paragraphs s =
             (Inr (take (min (nat (py_round (int_mul_float (int k + 1) rate) + (int k + 1)))
                             (length ps0)) ps0 @
                   img_tag f #
                   drop (min (nat (py_round (int_mul_float (int k + 1) rate) + (int k + 1)))
                             (length ps0)) ps0),
              a0\<lparr>images := images a0 @ [f]\<rparr>, s1) \<and>
           (length paragraphs = 6 \<and> length imgs = 2 \<longrightarrow>
              rate = 2 \<and> py_round (int_mul_float 1 rate) + 1 = 3 \<and>
              py_round (int_mul_float 2 rate) + 2 = 6)"
proof -
  obtain rate where rate: "int_truediv (int (length paragraphs)) (int (length imgs) + 1) = Inr rate"
    by (simp add: int_truediv_def)
  obtain r a1 s1' where run0: "space_out w rate 1 imgs a paragraphs s = (r, a1, s1')"
    by (cases "space_out w rate 1 imgs a paragraphs s") auto
  have ap: "add_paragraphs w p c a s =
      (case space_out w rate 1 imgs a paragraphs s of
         (Inl e, a1, s1) \<Rightarrow> (Inl e, a1, s1)
       | (Inr paragraphs', a1, s1) \<Rightarrow>
           (Inr (), a1\<lparr>content := c @ join ''<br>'' paragraphs'\<rparr>, s1))"
    using rate by (simp add: add_paragraphs_def Let_def imgs [symmetric] pars [symmetric])
  obtain ps' where r: "r = Inr ps'"
    using build ap run0 by (cases r) simp_all
  have run: "space_out w rate 1 imgs a paragraphs s = (Inr ps', a1, s1')"
    using run0 r by simp
  have a': "content a' = c @ join ''<br>'' ps'"
    using build ap run by auto
  have len: "length ps' = length paragraphs + length imgs"
    using run by (rule space_out_length)
  have nn: "0 \<le> rate"
    using rate by (rule int_truediv_nonneg [rotated 2]) simp_all
  have pos: "0 \<le> py_round (int_mul_float (int k + 1) rate) + (int k + 1)"
    using nn by (rule position_nonneg) simp
  obtain ps0 a0 s0 f s1 where
    st: "space_out w rate 1 (take k imgs) a paragraphs s = (Inr ps0, a0, s0)"
        "length ps0 = length paragraphs + k"
        "download_image w s0 (imgs ! k) 400 = (Inr f, s1)"
        "space_out w rate 1 (take (Suc k) imgs) a paragraphs s =
           (Inr (list_insert ps0
                   (py_round (int_mul_float (int k + 1) rate) + (int k + 1)) (img_tag f)),
            a0\<lparr>images := images a0 @ [f]\<rparr>, s1)"
    using space_out_step [OF run k] by blast
  have six: "length paragraphs = 6 \<and> length imgs = 2 \<longrightarrow>
      rate = 2 \<and> py_round (int_mul_float 1 rate) + 1 = 3 \<and>
      py_round (int_mul_float 2 rate) + 2 = 6"
    using rate six_over_three by auto
  have "fst (space_out w rate 1 imgs a paragraphs s) = Inr ps'" using run by simp
  then show ?thesis
    using rate len a' st(1,2,3) pos st(4) [unfolded list_insert_at [OF pos]] six
    by blast
qed

theorem add_paragraphs_positions_witness:
  "two_images = filter (\<lambda>i. i \<noteq> top_image six_parsed) (parsed_images six_parsed) \<and>
   [''p1'', ''p2'', ''p3'', ''p4'', ''p5'', ''p6''] = split_on (CHR 0x0A) (parsed_text six_parsed) \<and>
   fst (add_paragraphs demo_world six_parsed ''<h1>Six</h1>''
          (Article ''http://e.com/six'' ''Six'') state0) = Inr () \<and>
   (1::nat) < length two_images \<and>
   fst (space_out demo_world 2 1 two_images (Article ''http://e.com/six'' ''Six'')
          [''p1'', ''p2'', ''p3'', ''p4'', ''p5'', ''p6''] state0) =
     Inr [''p1'', ''p2'', ''p3'', img_tag ''images/0cc1-1.png'', ''p4'', ''p5'',
          img_tag ''images/0cc1-2.png'', ''p6''] \<and>
   (\<exists>ps0 a0 s0 f s1.
      space_out demo_world 2 1 (take 1 two_images) (Article ''http://e.com/six'' ''Six'')
        [''p1'', ''p2'', ''p3'', ''p4'', ''p5'', ''p6''] state0 = (Inr ps0, a0, s0) \<and>
      length ps0 = 7 \<and>
      download_image demo_world s0 (two_images ! 1) 400 = (Inr f, s1) \<and>
      space_out demo_world 2 1 (take (Suc 1) two_images) (Article ''http://e.com/six'' ''Six'')
        [''p1'', ''p2'', ''p3'', ''p4'', ''p5'', ''p6''] state0 =
        (Inr (take 6 ps0 @ img_tag f # drop 6 ps0), a0\<lparr>images := images a0 @ [f]\<rparr>, s1))"
proof -
  let ?a = "Article ''http://e.com/six'' ''Six''"
  let ?ps = "[''p1'', ''p2'', ''p3'', ''p4'', ''p5'', ''p6'']"
  have h1: "two_images = filter (\<lambda>i. i \<noteq> top_image six_parsed) (parsed_images six_parsed)"
    by (simp add: six_parsed_def two_images_def)
  have h2: "?ps = split_on (CHR 0x0A) (parsed_text six_parsed)"
    by (simp add: six_parsed_def six_paragraphs_def)
  have b: "fst (add_paragraphs demo_world six_parsed ''<h1>Six</h1>'' ?a state0) = Inr ()"
    by code_simp
  have h3: "add_paragraphs demo_world six_parsed ''<h1>Six</h1>'' ?a state0 =
      (Inr (), fst (snd (add_paragraphs demo_world six_parsed ''<h1>Six</h1>'' ?a state0)),
       snd (snd (add_paragraphs demo_world six_parsed ''<h1>Six</h1>'' ?a state0)))"
    using b by (simp add: prod_eq_iff)
  have h4: "(1::nat) < length two_images" by (simp add: two_images_def)
  have c: "fst (space_out demo_world 2 1 two_images ?a ?ps state0) =
     Inr [''p1'', ''p2'', ''p3'', img_tag ''images/0cc1-1.png'', ''p4'', ''p5'',
          img_tag ''images/0cc1-2.png'', ''p6'']"
    by code_simp
  have l: "length ?ps = 6 \<and> length two_images = 2" by (simp add: two_images_def)
  from add_paragraphs_positions [OF h1 h2 h3 h4]
  obtain rate ps0 a0 s0 f s1 where
    r: "length ?ps = 6 \<and> length two_images = 2 \<longrightarrow>
          rate = 2 \<and> py_round (int_mul_float 1 rate) + 1 = 3 \<and>
          py_round (int_mul_float 2 rate) + 2 = 6"
    and st: "space_out demo_world rate 1 (take 1 two_images) ?a ?ps state0 = (Inr ps0, a0, s0)"
      "length ps0 = length ?ps + 1"
      "download_image demo_world s0 (two_images ! 1) 400 = (Inr f, s1)"
      "space_out demo_world rate 1 (take (Suc 1) two_images) ?a ?ps state0 =
         (Inr (take (min (nat (py_round (int_mul_float (int 1 + 1) rate) + (int 1 + 1)))
                         (length ps0)) ps0 @
               img_tag f #
               drop (min (nat (py_round (int_mul_float (int 1 + 1) rate) + (int 1 + 1)))
                         (length ps0)) ps0),
          a0\<lparr>images := images a0 @ [f]\<rparr>, s1)"
    by blast
  have rate: "rate = 2" and p2: "py_round (int_mul_float 2 rate) + 2 = 6"
    using r l by blast+
  have len: "length ps0 = 7" using st(2) by simp
  have j: "min (nat (py_round (int_mul_float (int 1 + 1) rate) + (int 1 + 1))) (length ps0) = 6"
    using p2 len by simp
  have "space_out demo_world 2 1 (take 1 two_images) ?a ?ps state0 = (Inr ps0, a0, s0) \<and>
      length ps0 = 7 \<and>
      download_image demo_world s0 (two_images ! 1) 400 = (Inr f, s1) \<and>
      space_out demo_world 2 1 (take (Suc 1) two_images) ?a ?ps state0 =
        (Inr (take 6 ps0 @ img_tag f # drop 6 ps0), a0\<lparr>images := images a0 @ [f]\<rparr>, s1)"
    using st(1,3) len st(4) [unfolded j] by (simp only: rate)
  then show ?thesis using h1 h2 b h4 c by blast
qed

text \<open>
  The position can lie behind the end of the list. With one paragraph and two images the
  rate is the float nearest to 1/3 and the second position is \<open>round(2 * rate) + 2 = 3\<close>,
  but the list has only two entries then: the block is appended, at index 2.
\<close>

theorem add_paragraphs_positions_counterexample:
  "int_truediv (int (length [''p1''])) (int (length two_images) + 1) =
     Inr (6004799503160661 / 18014398509481984) \<and>
   py_round (int_mul_float 2 (6004799503160661 / 18014398509481984)) + 2 = 3 \<and>
   fst (space_out demo_world (6004799503160661 / 18014398509481984) 1 two_images
          (Article ''http://e.com/one'' ''One'') [''p1''] state0) =
     Inr [''p1'', img_tag ''images/0cc1-1.png'', img_tag ''images/0cc1-2.png''] \<and>
   content (fst (snd (Article_build demo_world (Article ''http://e.com/one'' ''One'') state0))) =
     ''<h1>One</h1>p1<br>'' @ img_tag ''images/0cc1-1.png'' @ ''<br>'' @
     img_tag ''images/0cc1-2.png'' \<and>
   length (list_insert [''p1'', img_tag ''images/0cc1-1.png''] 3
             (img_tag ''images/0cc1-2.png'')) = 3 \<and>
   list_insert [''p1'', img_tag ''images/0cc1-1.png''] 3 (img_tag ''images/0cc1-2.png'') ! 2 =
     img_tag ''images/0cc1-2.png''"
  by code_simp

end
